theory Spec2Isabelle
  imports Complex_Main "HOL-Library.Multiset"
begin

section \<open>JavaScript values\<close>

text \<open>
  The request fields and the nullable text columns that the handlers of
  \<^verbatim>\<open>src/index.js\<close> touch hold \<^verbatim>\<open>undefined\<close>, \<^verbatim>\<open>null\<close> or a string.
  HOL equality on \<open>jsv\<close> is JavaScript's \<^verbatim>\<open>===\<close> on these values (and the
  SameValueZero of \<^verbatim>\<open>Array.prototype.includes\<close>).
\<close>

datatype jsv = Undefined | Null | Str string

text \<open>\<^verbatim>\<open>!v\<close>: the falsy values are \<^verbatim>\<open>undefined\<close>, \<^verbatim>\<open>null\<close> and the empty string.\<close>

fun falsy :: "jsv \<Rightarrow> bool" where
  "falsy Undefined = True"
| "falsy Null = True"
| "falsy (Str s) = (s = [])"

text \<open>
  \<^verbatim>\<open>v.length\<close>: reading a property of \<^verbatim>\<open>undefined\<close> or \<^verbatim>\<open>null\<close> throws a
  TypeError (\<open>None\<close>); a string has its length.
\<close>

fun js_length :: "jsv \<Rightarrow> nat option" where
  "js_length (Str s) = Some (length s)"
| "js_length Undefined = None"
| "js_length Null = None"

text \<open>
  The result of \<^verbatim>\<open>(approvedCount / totalGroupMembers) * 100\<close>. Both operands are
  array lengths. Division by zero does not throw in JavaScript: \<^verbatim>\<open>0 / 0\<close> is
  \<^verbatim>\<open>NaN\<close> and \<^verbatim>\<open>n / 0\<close> is \<^verbatim>\<open>Infinity\<close> for \<^verbatim>\<open>n > 0\<close>. A finite quotient is
  kept as an exact rational; the rounding of IEEE doubles is not modelled.
\<close>

datatype jsnum = Num rat | PosInf | NaN

definition js_div :: "nat \<Rightarrow> nat \<Rightarrow> jsnum" where
  "js_div a b =
     (if b = 0 then (if a = 0 then NaN else PosInf) else Num (of_nat a / of_nat b))"

fun js_times :: "jsnum \<Rightarrow> rat \<Rightarrow> jsnum" where
  "js_times (Num q) k = Num (q * k)"
| "js_times PosInf k = PosInf"
| "js_times NaN k = NaN"

text \<open>\<^verbatim>\<open>x >= k\<close>: false for \<^verbatim>\<open>NaN\<close>, true for \<^verbatim>\<open>Infinity\<close>.\<close>

fun js_ge :: "jsnum \<Rightarrow> rat \<Rightarrow> bool" where
  "js_ge (Num q) k = (k \<le> q)"
| "js_ge PosInf k = True"
| "js_ge NaN k = False"

section \<open>JavaScript objects used as dictionaries\<close>

text \<open>
  An object is the list of its own properties in insertion order (keys distinct).
  \<^verbatim>\<open>Object.keys\<close> and \<^verbatim>\<open>Object.entries\<close> list the keys that are array indices
  (canonical decimal strings below \<open>2^32 - 1\<close>) first, in ascending numeric order,
  and then every other key in insertion order.
\<close>

type_synonym 'v jsobj = "(string \<times> 'v) list"

definition is_digit :: "char \<Rightarrow> bool" where
  "is_digit c = (48 \<le> (of_char c :: int) \<and> (of_char c :: int) \<le> 57)"

definition digits_value :: "string \<Rightarrow> int" where
  "digits_value s = foldl (\<lambda>n c. 10 * n + ((of_char c :: int) - 48)) 0 s"

definition is_array_index :: "string \<Rightarrow> bool" where
  "is_array_index s =
     (case s of
        [] \<Rightarrow> False
      | c # r \<Rightarrow> list_all is_digit s \<and> (c \<noteq> CHR ''0'' \<or> r = []) \<and>
                 digits_value s < 4294967295)"

definition object_entries :: "'v jsobj \<Rightarrow> (string \<times> 'v) list" where
  "object_entries obj =
     sort_key (\<lambda>kv. digits_value (fst kv)) (filter (\<lambda>kv. is_array_index (fst kv)) obj) @
     filter (\<lambda>kv. \<not> is_array_index (fst kv)) obj"

definition object_keys :: "'v jsobj \<Rightarrow> string list" where
  "object_keys obj = map fst (object_entries obj)"



section \<open>The store\<close>

text \<open>
  The four tables of the Supabase database, each a list of rows. The column
  \<^verbatim>\<open>users.group_name\<close> holds one value or an array
  (\<^verbatim>\<open>Array.isArray(nomineeUser.group_name)\<close>); \<^verbatim>\<open>groups.people_map\<close> holds a JSON
  object from reviewer id to reviewer name, or \<^verbatim>\<open>null\<close>; \<^verbatim>\<open>events.aura_points\<close>
  holds an integer or \<^verbatim>\<open>null\<close> (a \<^verbatim>\<open>NaN\<close> is serialised as \<^verbatim>\<open>null\<close>).
\<close>

datatype column = Scalar jsv | Array "jsv list"

record user_row =
  u_user_id :: string
  u_name :: string
  u_group_name :: column

record group_row =
  g_group_id :: string
  g_people_map :: "string jsobj option"

record event_row =
  e_event_id :: nat
  e_name :: string
  e_user_id :: string
  e_aura_points :: "int option"
  e_description :: string
  e_group_name :: jsv
  e_is_approved :: bool

record pending_row =
  p_pending_id :: nat
  p_event_id :: nat
  p_approved :: bool
  p_reviewed :: bool
  p_name_of_nominee :: string
  p_user_id_of_nominee :: string
  p_name_of_reviewer :: string
  p_user_id_of_reviewer :: string

record db =
  users :: "user_row list"
  groups :: "group_row list"
  events :: "event_row list"
  pending :: "pending_row list"

text \<open>
  Every call of the store returns \<^verbatim>\<open>{data, error}\<close>. A call can fail for reasons
  outside the program (the network, a constraint of the schema): the handlers take
  \<open>fl :: faults\<close>, and \<open>fl i\<close> is the message of the failure injected into the
  \<open>i\<close>-th store call of the request, \<open>None\<close> when that call goes through.
  \<^verbatim>\<open>.single()\<close> adds an error of its own when the query does not match exactly
  one row.
\<close>

datatype store_error = Fault string | NotSingleRow

type_synonym faults = "nat \<Rightarrow> string option"

definition no_faults :: faults where
  "no_faults = (\<lambda>i. None)"

definition select :: "string option \<Rightarrow> 'r list \<Rightarrow> store_error + 'r list" where
  "select f rows = (case f of Some m \<Rightarrow> Inl (Fault m) | None \<Rightarrow> Inr rows)"

definition single :: "string option \<Rightarrow> 'r list \<Rightarrow> store_error + 'r" where
  "single f rows =
     (case f of
        Some m \<Rightarrow> Inl (Fault m)
      | None \<Rightarrow> (case rows of [r] \<Rightarrow> Inr r | _ \<Rightarrow> Inl NotSingleRow))"

text \<open>
  \<^verbatim>\<open>.from('pending').update({approved, reviewed: true}).eq('pending_id', pendingId)\<close>:
  every row with that id is rewritten; matching no row is not an error of the store.
\<close>

definition record_decision :: "nat \<Rightarrow> bool \<Rightarrow> pending_row list \<Rightarrow> pending_row list" where
  "record_decision pid a rows =
     map (\<lambda>p. if p_pending_id p = pid then p\<lparr>p_approved := a, p_reviewed := True\<rparr> else p) rows"

definition update_pending :: "string option \<Rightarrow> nat \<Rightarrow> bool \<Rightarrow> db \<Rightarrow> store_error + db" where
  "update_pending f pid a d =
     (case f of
        Some m \<Rightarrow> Inl (Fault m)
      | None \<Rightarrow> Inr (d\<lparr>pending := record_decision pid a (pending d)\<rparr>))"

text \<open>\<^verbatim>\<open>.from('events').update({is_approved: true}).eq('event_id', eventId)\<close>.\<close>

definition mark_approved :: "nat \<Rightarrow> event_row list \<Rightarrow> event_row list" where
  "mark_approved eid rows =
     map (\<lambda>e. if e_event_id e = eid then e\<lparr>e_is_approved := True\<rparr> else e) rows"

definition approve_event :: "string option \<Rightarrow> nat \<Rightarrow> db \<Rightarrow> store_error + db" where
  "approve_event f eid d =
     (case f of
        Some m \<Rightarrow> Inl (Fault m)
      | None \<Rightarrow> Inr (d\<lparr>events := mark_approved eid (events d)\<rparr>))"

text \<open>
  Inserts: the store generates the identifier of a new row (an identity column),
  here the successor of the largest identifier in the table. \<^verbatim>\<open>.insert([row]).select()\<close>
  returns the rows as stored.
\<close>

definition fresh_id :: "nat list \<Rightarrow> nat" where
  "fresh_id ids = Suc (foldr max ids 0)"

record new_event =
  ne_name :: string
  ne_user_id :: string
  ne_aura_points :: "int option"
  ne_description :: string
  ne_group_name :: jsv
  ne_is_approved :: bool

definition stored_event :: "nat \<Rightarrow> new_event \<Rightarrow> event_row" where
  "stored_event i n =
     \<lparr>e_event_id = i, e_name = ne_name n, e_user_id = ne_user_id n,
      e_aura_points = ne_aura_points n, e_description = ne_description n,
      e_group_name = ne_group_name n, e_is_approved = ne_is_approved n\<rparr>"

definition insert_event ::
  "string option \<Rightarrow> new_event \<Rightarrow> db \<Rightarrow> store_error + (event_row list \<times> db)" where
  "insert_event f n d =
     (case f of
        Some m \<Rightarrow> Inl (Fault m)
      | None \<Rightarrow>
          let row = stored_event (fresh_id (map e_event_id (events d))) n
          in Inr ([row], d\<lparr>events := events d @ [row]\<rparr>))"

record new_pending =
  np_event_id :: nat
  np_approved :: bool
  np_reviewed :: bool
  np_name_of_nominee :: string
  np_user_id_of_nominee :: string
  np_name_of_reviewer :: string
  np_user_id_of_reviewer :: string

definition stored_pending :: "nat \<Rightarrow> new_pending \<Rightarrow> pending_row" where
  "stored_pending i n =
     \<lparr>p_pending_id = i, p_event_id = np_event_id n, p_approved = np_approved n,
      p_reviewed = np_reviewed n, p_name_of_nominee = np_name_of_nominee n,
      p_user_id_of_nominee = np_user_id_of_nominee n,
      p_name_of_reviewer = np_name_of_reviewer n,
      p_user_id_of_reviewer = np_user_id_of_reviewer n\<rparr>"

definition insert_pending :: "string option \<Rightarrow> new_pending list \<Rightarrow> db \<Rightarrow> store_error + db" where
  "insert_pending f news d =
     (case f of
        Some m \<Rightarrow> Inl (Fault m)
      | None \<Rightarrow>
          let i = fresh_id (map p_pending_id (pending d))
          in Inr (d\<lparr>pending := pending d @ map2 stored_pending [i ..< i + length news] news\<rparr>))"

section \<open>Replies\<close>

text \<open>
  The body of an error reply carries a fixed text of the source, the message of a
  failed store call, or the message of a TypeError caught by the handler's
  \<^verbatim>\<open>catch\<close>.
\<close>

datatype errmsg = Literal string | StoreMsg store_error | TypeError

record exact_match =
  m_group :: jsv
  m_matches :: bool
  m_submittedLength :: nat
  m_groupLength :: nat

record debug =
  d_userGroups :: "jsv list"
  d_submittedGroupName :: jsv
  d_name :: string
  d_exactMatches :: "exact_match list"

datatype reply =
    Error nat errmsg
  | NotMember debug
  | Created
  | TopUsers "(string \<times> int) list"
  | Combined "(pending_row \<times> event_row) list"
  | Processed jsnum bool

section \<open>POST /api/add-event\<close>

text \<open>
  \<^verbatim>\<open>parseInt(auraPoints)\<close> with no radix, on the string form of the submitted
  value: leading white space is skipped, a sign is read, a prefix \<^verbatim>\<open>0x\<close> or
  \<^verbatim>\<open>0X\<close> selects radix 16, and the longest run of digits of the radix is the
  number; with no digit the result is \<^verbatim>\<open>NaN\<close> (\<open>None\<close>). White space is the ASCII
  white space, and the loss of precision above \<open>2^53\<close> is not modelled.
\<close>

definition is_space :: "char \<Rightarrow> bool" where
  "is_space c = ((of_char c :: int) \<in> {9, 10, 11, 12, 13, 32})"

definition digit_value :: "char \<Rightarrow> int" where
  "digit_value c =
     (let n = (of_char c :: int) in
      if 48 \<le> n \<and> n \<le> 57 then n - 48
      else if 97 \<le> n \<and> n \<le> 122 then n - 87
      else if 65 \<le> n \<and> n \<le> 90 then n - 55
      else 36)"

definition parseInt :: "string \<Rightarrow> int option" where
  "parseInt s =
     (let s1 = dropWhile is_space s;
          neg = (take 1 s1 = ''-'');
          s2 = (if take 1 s1 = ''-'' \<or> take 1 s1 = ''+'' then drop 1 s1 else s1);
          hex = (take 2 s2 = ''0x'' \<or> take 2 s2 = ''0X'');
          radix = (if hex then 16 else 10);
          s3 = (if hex then drop 2 s2 else s2);
          z = takeWhile (\<lambda>c. digit_value c < radix) s3
      in if z = [] then None
         else Some ((if neg then - 1 else 1) * foldl (\<lambda>n c. radix * n + digit_value c) 0 z))"

text \<open>
  The body of the request: the nominee's name and the description are strings,
  \<open>auraPoints\<close> is the string form of the submitted points (what \<^verbatim>\<open>parseInt\<close>
  reads), and \<open>groupName\<close> may be left out (\<^verbatim>\<open>undefined\<close>).
\<close>

record add_req =
  name :: string
  auraPoints :: string
  description :: string
  groupName :: jsv

text \<open>
  The list logged as \<^verbatim>\<open>exactMatches\<close> (lines 59-64) and sent again in the
  diagnostic payload (lines 74-79). Its callback reads
  \<^verbatim>\<open>submittedGroupName.length\<close> and \<^verbatim>\<open>g.length\<close> for every element of
  \<^verbatim>\<open>userGroups\<close>, so it throws a TypeError (\<open>None\<close>) when there is an element and
  the submitted value or the element is \<^verbatim>\<open>undefined\<close> or \<^verbatim>\<open>null\<close>.
\<close>

fun exactMatches :: "jsv list \<Rightarrow> jsv \<Rightarrow> exact_match list option" where
  "exactMatches [] submitted = Some []"
| "exactMatches (g # gs) submitted =
     (case js_length submitted of
        None \<Rightarrow> None
      | Some sl \<Rightarrow>
          (case js_length g of
             None \<Rightarrow> None
           | Some gl \<Rightarrow>
               (case exactMatches gs submitted of
                  None \<Rightarrow> None
                | Some ms \<Rightarrow>
                    Some (\<lparr>m_group = g, m_matches = (g = submitted),
                           m_submittedLength = sl, m_groupLength = gl\<rparr> # ms))))"

text \<open>
  Step 4 (lines 121-130): one ballot per entry of \<^verbatim>\<open>Object.entries(peopleMap)\<close>,
  not approved and not reviewed.
\<close>

definition pendingInserts ::
  "add_req \<Rightarrow> string \<Rightarrow> nat \<Rightarrow> string jsobj \<Rightarrow> new_pending list" where
  "pendingInserts req userIdOfNominee eventId peopleMap =
     map (\<lambda>(reviewerId, reviewerName).
            \<lparr>np_event_id = eventId,
             np_approved = False,
             np_reviewed = False,
             np_name_of_nominee = name req,
             np_user_id_of_nominee = userIdOfNominee,
             np_name_of_reviewer = reviewerName,
             np_user_id_of_reviewer = reviewerId\<rparr>)
       (object_entries peopleMap)"

text \<open>
  Steps 3 to 5 of the handler (lines 107-141): the roster of the submitted group is
  read and the ballots are inserted.
\<close>

definition fan_out :: "add_req \<Rightarrow> string \<Rightarrow> nat \<Rightarrow> faults \<Rightarrow> db \<Rightarrow> reply \<times> db" where
  "fan_out req userIdOfNominee eventId fl d1 =
     (case single (fl 2) (filter (\<lambda>g. Str (g_group_id g) = groupName req) (groups d1)) of
        Inl e \<Rightarrow> (Error 500 (Literal ''Group or people_map not found''), d1)
      | Inr groupData \<Rightarrow>
          (case g_people_map groupData of
             None \<Rightarrow> (Error 500 (Literal ''Group or people_map not found''), d1)
           | Some peopleMap \<Rightarrow>
               (case insert_pending (fl 3)
                       (pendingInserts req userIdOfNominee eventId peopleMap) d1 of
                  Inl e \<Rightarrow> (Error 500 (StoreMsg e), d1)
                | Inr d2 \<Rightarrow> (Created, d2))))"

text \<open>Step 2 (lines 84-105): the event is inserted, never approved at first.\<close>

definition create_event :: "add_req \<Rightarrow> string \<Rightarrow> faults \<Rightarrow> db \<Rightarrow> reply \<times> db" where
  "create_event req userIdOfNominee fl d =
     (case insert_event (fl 1)
             \<lparr>ne_name = name req, ne_user_id = userIdOfNominee,
              ne_aura_points = parseInt (auraPoints req),
              ne_description = description req,
              ne_group_name = groupName req,
              ne_is_approved = False\<rparr> d of
        Inl e \<Rightarrow> (Error 500 (StoreMsg e), d)
      | Inr (eventData, d1) \<Rightarrow>
          (case eventData of
             [] \<Rightarrow> (Error 500 (Literal ''Event insert failed''), d1)
           | ev # _ \<Rightarrow> fan_out req userIdOfNominee (e_event_id ev) fl d1))"

text \<open>Lines 52-54: a membership value that is not an array is a one-element array.\<close>

definition userGroups :: "user_row \<Rightarrow> jsv list" where
  "userGroups nomineeUser =
     (case u_group_name nomineeUser of Array gs \<Rightarrow> gs | Scalar g \<Rightarrow> [g])"

text \<open>
  The handler (lines 22-146). Store calls: 0 the nominee, 1 the insert of the
  event, 2 the group, 3 the insert of the ballots. A step that fails leaves what
  the earlier steps wrote. The \<^verbatim>\<open>console.log\<close> of lines 56-65 evaluates
  \<^verbatim>\<open>exactMatches\<close> before the membership test, and a TypeError thrown there is
  caught by the handler's \<^verbatim>\<open>catch\<close> (line 143).
\<close>

definition add_event :: "add_req \<Rightarrow> faults \<Rightarrow> db \<Rightarrow> reply \<times> db" where
  "add_event req fl d =
     (case single (fl 0) (filter (\<lambda>u. u_name u = name req) (users d)) of
        Inl e \<Rightarrow> (Error 400 (Literal ''Nominee not found in users table''), d)
      | Inr nomineeUser \<Rightarrow>
          (case exactMatches (userGroups nomineeUser) (groupName req) of
             None \<Rightarrow> (Error 500 TypeError, d)
           | Some ms \<Rightarrow>
               if groupName req \<notin> set (userGroups nomineeUser)
               then (NotMember \<lparr>d_userGroups = userGroups nomineeUser,
                                d_submittedGroupName = groupName req,
                                d_name = u_name nomineeUser,
                                d_exactMatches = ms\<rparr>, d)
               else create_event req (u_user_id nomineeUser) fl d))"

section \<open>GET /api/dashboard-results\<close>








section \<open>GET /api/pending-reviews\<close>

definition pending_reviews :: "jsv \<Rightarrow> jsv \<Rightarrow> faults \<Rightarrow> db \<Rightarrow> reply \<times> db" where
  "pending_reviews group_id user_id fl d =
     (if falsy group_id \<or> falsy user_id
      then (Error 400 (Literal ''Missing required parameters''), d)
      else (case select (fl 0)
                   (filter (\<lambda>p. Str (p_user_id_of_reviewer p) = user_id \<and> \<not> p_reviewed p)
                      (pending d)) of
              Inl e \<Rightarrow> (Error 500 (StoreMsg e), d)
            | Inr pendingData \<Rightarrow>
                if pendingData = [] then (Combined [], d)
                else
                  let eventIds = map p_event_id pendingData in
                  (case select (fl 1)
                          (filter (\<lambda>e. e_event_id e \<in> set eventIds \<and> e_group_name e = group_id)
                             (events d)) of
                     Inl e \<Rightarrow> (Error 500 (StoreMsg e), d)
                   | Inr eventsData \<Rightarrow>
                       (Combined
                          (List.map_filter
                             (\<lambda>p. case find (\<lambda>e. e_event_id e = p_event_id p) eventsData of
                                     None \<Rightarrow> None
                                   | Some event \<Rightarrow> Some (p, event))
                             pendingData), d))))"

section \<open>POST /api/review-event\<close>

text \<open>
  The body of the request. The identifiers generated by the store
  (\<^verbatim>\<open>pending_id\<close>, \<^verbatim>\<open>event_id\<close>) are numbers; a field left out is \<open>None\<close>
  (\<^verbatim>\<open>undefined\<close>), and \<^verbatim>\<open>!id\<close> also holds for the number 0. The decision is a
  boolean or left out.
\<close>

record review_req =
  pendingId :: "nat option"
  eventId :: "nat option"
  isApproved :: "bool option"
  groupId :: jsv

text \<open>
  Steps 2 to 4 of the handler (lines 310-363): the roster of \<open>gid\<close> is read, the
  ballots of \<open>eid\<close> with \<^verbatim>\<open>approved = true\<close> are counted, and the event is
  approved when the percentage reaches 50. \<^verbatim>\<open>Object.keys(null)\<close> throws.
\<close>

definition evaluate_quorum :: "nat \<Rightarrow> jsv \<Rightarrow> faults \<Rightarrow> db \<Rightarrow> reply \<times> db" where
  "evaluate_quorum eid gid fl d =
     (case single (fl 1) (filter (\<lambda>g. Str (g_group_id g) = gid) (groups d)) of
        Inl e \<Rightarrow> (Error 500 (StoreMsg e), d)
      | Inr groupData \<Rightarrow>
          (case g_people_map groupData of
             None \<Rightarrow> (Error 500 TypeError, d)
           | Some people_map \<Rightarrow>
               let totalGroupMembers = length (object_keys people_map) in
               (case select (fl 2)
                       (filter (\<lambda>p. p_event_id p = eid \<and> p_approved p) (pending d)) of
                  Inl e \<Rightarrow> (Error 500 (StoreMsg e), d)
                | Inr approvedData \<Rightarrow>
                    let approvedCount = length approvedData;
                        approvalPercentage = js_times (js_div approvedCount totalGroupMembers) 100
                    in if js_ge approvalPercentage 50
                       then (case approve_event (fl 3) eid d of
                               Inl e \<Rightarrow> (Error 500 (StoreMsg e), d)
                             | Inr d' \<Rightarrow>
                                 (Processed approvalPercentage (js_ge approvalPercentage 50), d'))
                       else (Processed approvalPercentage (js_ge approvalPercentage 50), d))))"

text \<open>The whole handler (lines 289-369): validation, the write of step 1, the evaluation.\<close>

definition review_event :: "review_req \<Rightarrow> faults \<Rightarrow> db \<Rightarrow> reply \<times> db" where
  "review_event req fl d =
     (case (pendingId req, eventId req, isApproved req) of
        (Some pid, Some eid, Some a) \<Rightarrow>
          if pid = 0 \<or> eid = 0 \<or> falsy (groupId req)
          then (Error 400 (Literal ''Missing required parameters''), d)
          else (case update_pending (fl 0) pid a d of
                  Inl e \<Rightarrow> (Error 500 (StoreMsg e), d)
                | Inr d1 \<Rightarrow> evaluate_quorum eid (groupId req) fl d1)
      | _ \<Rightarrow> (Error 400 (Literal ''Missing required parameters''), d))"

text \<open>A sequence of review requests, each with the faults of its store calls.\<close>

fun review_events :: "(review_req \<times> faults) list \<Rightarrow> db \<Rightarrow> db" where
  "review_events [] d = d"
| "review_events ((req, fl) # rs) d = review_events rs (snd (review_event req fl d))"

section \<open>Example stores\<close>

text \<open>
  Group A has four reviewers and group B two. Alice is a member of group A (an
  array), Carol of group B (a single value) and the membership of Bob is
  \<^verbatim>\<open>null\<close>. Alice has two pending nominations in group A; ballot 1 belongs to
  event 1 and ballot 2 to event 2.
\<close>

definition ballot :: "nat \<Rightarrow> nat \<Rightarrow> bool \<Rightarrow> bool \<Rightarrow> string \<Rightarrow> pending_row" where
  "ballot pid eid a r reviewer =
     \<lparr>p_pending_id = pid, p_event_id = eid, p_approved = a, p_reviewed = r,
      p_name_of_nominee = ''Alice'', p_user_id_of_nominee = ''u-alice'',
      p_name_of_reviewer = reviewer, p_user_id_of_reviewer = reviewer\<rparr>"

definition nomination :: "nat \<Rightarrow> string \<Rightarrow> int option \<Rightarrow> string \<Rightarrow> bool \<Rightarrow> event_row" where
  "nomination eid n pts g a =
     \<lparr>e_event_id = eid, e_name = n, e_user_id = ''u-alice'', e_aura_points = pts,
      e_description = ''helped'', e_group_name = Str g, e_is_approved = a\<rparr>"

definition roster_A :: "string jsobj" where
  "roster_A = [(''r1'', ''R1''), (''r2'', ''R2''), (''r3'', ''R3''), (''r4'', ''R4'')]"

definition group_A :: group_row where
  "group_A = \<lparr>g_group_id = ''A'', g_people_map = Some roster_A\<rparr>"

definition roster_B :: "string jsobj" where
  "roster_B = [(''r5'', ''R5''), (''r6'', ''R6'')]"

definition group_B :: group_row where
  "group_B = \<lparr>g_group_id = ''B'', g_people_map = Some roster_B\<rparr>"

definition demo_db :: db where
  "demo_db =
     \<lparr>users =
        [\<lparr>u_user_id = ''u-alice'', u_name = ''Alice'', u_group_name = Array [Str ''A'']\<rparr>,
         \<lparr>u_user_id = ''u-bob'', u_name = ''Bob'', u_group_name = Scalar Null\<rparr>,
         \<lparr>u_user_id = ''u-carol'', u_name = ''Carol'', u_group_name = Scalar (Str ''B'')\<rparr>],
      groups = [group_A, group_B],
      events = [nomination 1 ''Alice'' (Some 10) ''A'' False, nomination 2 ''Alice'' (Some 5) ''A'' False],
      pending = [ballot 1 1 False False ''r1'', ballot 2 2 True True ''r1'']\<rparr>"

definition nominate :: "string \<Rightarrow> string \<Rightarrow> jsv \<Rightarrow> add_req" where
  "nominate n pts g = \<lparr>name = n, auraPoints = pts, description = ''helped'', groupName = g\<rparr>"

definition decide :: "nat \<Rightarrow> nat \<Rightarrow> bool \<Rightarrow> string \<Rightarrow> review_req" where
  "decide pid eid a g = \<lparr>pendingId = Some pid, eventId = Some eid, isApproved = Some a, groupId = Str g\<rparr>"

text \<open>
  The store after a rejection of ballot 1 (of event 1) was sent with event id 2 and
  group B.
\<close>

definition cross_db :: db where
  "cross_db = snd (review_event (decide 1 2 False ''B'') no_faults demo_db)"

text \<open>
  A store for the pending-reviews query: reviewer r1 also holds ballot 3, whose
  event 9 does not exist, and ballot 4, whose event 5 belongs to group B.
\<close>

definition join_db :: db where
  "join_db = demo_db\<lparr>
     events := events demo_db @ [nomination 5 ''Carol'' (Some 3) ''B'' False],
     pending := pending demo_db @
       [ballot 3 9 False False ''r1'', ballot 4 5 False False ''r1'', ballot 5 2 False False ''r2'']\<rparr>"



section \<open>Enumeration of objects\<close>

lemma mset_object_entries: "mset (object_entries obj) = mset obj"
  by (simp add: object_entries_def)

lemma length_object_entries: "length (object_entries obj) = length obj"
  using mset_object_entries [of obj] by (metis size_mset)

lemma length_object_keys: "length (object_keys obj) = length obj"
  by (simp add: object_keys_def length_object_entries)

lemmas demo_defs = demo_db_def group_A_def group_B_def roster_A_def roster_B_def ballot_def nomination_def decide_def no_faults_def

section \<open>Nomination intake\<close>

lemma exactMatches_None_iff:
  "exactMatches gs s = None \<longleftrightarrow>
     gs \<noteq> [] \<and> (js_length s = None \<or> (\<exists>g\<in>set gs. js_length g = None))"
  by (induction gs) (auto split: option.splits)

lemma single_Inr_iff: "single f rows = Inr r \<longleftrightarrow> f = None \<and> rows = [r]"
  by (auto simp: single_def split: option.splits list.splits)

lemma fan_out_Created:
  assumes "fan_out req uid eid fl d1 = (Created, d2)"
  shows "\<exists>g pm. fl 2 = None \<and> fl 3 = None \<and>
     filter (\<lambda>g. Str (g_group_id g) = groupName req) (groups d1) = [g] \<and>
     g_people_map g = Some pm \<and>
     d2 = d1\<lparr>pending := pending d1 @
            map2 stored_pending
              [fresh_id (map p_pending_id (pending d1)) ..<
               fresh_id (map p_pending_id (pending d1)) + length (pendingInserts req uid eid pm)]
              (pendingInserts req uid eid pm)\<rparr>"
  using assms
  by (auto simp: fan_out_def insert_pending_def single_Inr_iff Let_def
      split: sum.splits option.splits)

lemma create_event_Created:
  assumes "create_event req uid fl d = (Created, d2)"
  shows "fl 1 = None \<and>
     fan_out req uid (fresh_id (map e_event_id (events d))) fl
       (d\<lparr>events := events d @
          [\<lparr>e_event_id = fresh_id (map e_event_id (events d)), e_name = name req,
            e_user_id = uid, e_aura_points = parseInt (auraPoints req),
            e_description = description req, e_group_name = groupName req,
            e_is_approved = False\<rparr>]\<rparr>) = (Created, d2)"
  using assms
  by (auto simp: create_event_def insert_event_def stored_event_def Let_def
      split: sum.splits option.splits list.splits)

lemma add_event_Created:
  assumes "add_event req fl d = (Created, d2)"
  shows "\<exists>u. fl 0 = None \<and> filter (\<lambda>u. u_name u = name req) (users d) = [u] \<and>
     groupName req \<in> set (userGroups u) \<and>
     create_event req (u_user_id u) fl d = (Created, d2)"
  using assms
  by (auto simp: add_event_def single_Inr_iff split: sum.splits option.splits if_splits)





lemmas add_defs = add_event_def create_event_def fan_out_def pendingInserts_def userGroups_def
  insert_event_def insert_pending_def stored_event_def stored_pending_def fresh_id_def
  single_def object_entries_def is_array_index_def is_digit_def digits_value_def
  parseInt_def is_space_def digit_value_def nominate_def Let_def






lemma exactMatches_strings:
  assumes "\<forall>x\<in>set gs. \<exists>s. x = Str s" "Str g \<notin> set gs"
  shows "exactMatches gs (Str g) =
     Some (map (\<lambda>x. \<lparr>m_group = x, m_matches = False, m_submittedLength = length g,
                       m_groupLength = (case x of Str s \<Rightarrow> length s | _ \<Rightarrow> 0)\<rparr>) gs)"
  using assms by (induction gs) auto

lemma not_member_reply:
  assumes "fl 0 = None" "filter (\<lambda>u. u_name u = name req) (users d) = [u]"
    and "groupName req = Str g" "\<forall>x\<in>set (userGroups u). \<exists>s. x = Str s"
    and "Str g \<notin> set (userGroups u)"
  shows "add_event req fl d =
     (NotMember \<lparr>d_userGroups = userGroups u, d_submittedGroupName = Str g, d_name = u_name u,
        d_exactMatches =
          map (\<lambda>x. \<lparr>m_group = x, m_matches = False, m_submittedLength = length g,
                     m_groupLength = (case x of Str s \<Rightarrow> length s | _ \<Rightarrow> 0)\<rparr>)
            (userGroups u)\<rparr>, d)"
  using assms exactMatches_strings [OF assms(4,5)]
  by (simp add: add_event_def single_def)

lemma mismatch_creates_nothing:
  assumes "filter (\<lambda>u. u_name u = name req) (users d) = [u]"
    and "groupName req \<notin> set (userGroups u)"
  shows "snd (add_event req fl d) = d"
  using assms
  by (auto simp: add_event_def single_def split: option.splits)

text \<open>
  C4 at two inputs whose membership value does not contain the submitted group: a
  request without \<^verbatim>\<open>groupName\<close> for Alice, and a request for Bob, whose
  membership is \<^verbatim>\<open>null\<close>. The \<^verbatim>\<open>console.log\<close> of lines 56-65 throws a TypeError
  and the reply is \<^verbatim>\<open>500 {error: err.message}\<close>, not the not-a-member error with its
  diagnostic payload. No event is created. (\<open>not_member_reply\<close> above is the
  claim for string values.)
\<close>

theorem membership_check_crashes:
  "Undefined \<notin> set (userGroups \<lparr>u_user_id = ''u-alice'', u_name = ''Alice'', u_group_name = Array [Str ''A'']\<rparr>) \<and>
   add_event (nominate ''Alice'' ''7'' Undefined) no_faults demo_db = (Error 500 TypeError, demo_db) \<and>
   Str ''A'' \<notin> set (userGroups \<lparr>u_user_id = ''u-bob'', u_name = ''Bob'', u_group_name = Scalar Null\<rparr>) \<and>
   add_event (nominate ''Bob'' ''7'' (Str ''A'')) no_faults demo_db = (Error 500 TypeError, demo_db)"
  by (simp add: demo_defs add_defs)

lemma le_foldr_max: "x \<in> set ids \<Longrightarrow> x \<le> foldr max ids (0::nat)"
  by (induction ids) (auto simp: max_def)

lemma fresh_id_fresh: "fresh_id ids \<notin> set ids"
  using le_foldr_max [of "fresh_id ids" ids] by (auto simp: fresh_id_def)

lemma reviewers_of_stored:
  assumes "length ids = length (pendingInserts req uid eid pm)"
  shows "map (\<lambda>p. (p_user_id_of_reviewer p, p_name_of_reviewer p))
           (map2 stored_pending ids (pendingInserts req uid eid pm)) = object_entries pm"
proof -
  have "map (\<lambda>p. (p_user_id_of_reviewer p, p_name_of_reviewer p))
           (map2 stored_pending ids (pendingInserts req uid eid pm)) =
        map (\<lambda>n. (np_user_id_of_reviewer n, np_name_of_reviewer n))
           (map snd (zip ids (pendingInserts req uid eid pm)))"
    by (simp add: stored_pending_def case_prod_beta)
  also have "\<dots> = map (\<lambda>n. (np_user_id_of_reviewer n, np_name_of_reviewer n))
           (pendingInserts req uid eid pm)"
    using assms by (simp add: map_snd_zip del: map_map)
  also have "\<dots> = object_entries pm"
    by (simp add: pendingInserts_def case_prod_beta comp_def)
  finally show ?thesis .
qed

lemma flags_of_stored:
  assumes "p \<in> set (map2 stored_pending ids (pendingInserts req uid eid pm))"
  shows "p_event_id p = eid \<and> \<not> p_reviewed p \<and> \<not> p_approved p \<and>
         p_name_of_nominee p = name req \<and> p_user_id_of_nominee p = uid"
  using assms
  by (auto simp: stored_pending_def pendingInserts_def dest!: set_zip_rightD)

text \<open>
  C3. A nomination answered with 201 has read one group with the submitted id and
  a roster, has appended one event with a fresh id, and has appended exactly one
  ballot per entry of the roster: as many ballots as entries, their reviewer ids
  and names being the entries of the roster (in the order of
  \<^verbatim>\<open>Object.entries\<close>), each referencing the new event, not reviewed and not
  approved. Distinct roster keys give distinct reviewers, and when every older
  ballot references an existing event, the ballots referencing the new event are
  exactly the new ones.
\<close>

theorem one_ballot_per_roster_entry:
  assumes "add_event req fl d = (Created, d')"
  shows "\<exists>u g pm ev news.
      filter (\<lambda>u. u_name u = name req) (users d) = [u] \<and>
      filter (\<lambda>g. Str (g_group_id g) = groupName req) (groups d) = [g] \<and>
      g_people_map g = Some pm \<and>
      events d' = events d @ [ev] \<and> e_event_id ev \<notin> set (map e_event_id (events d)) \<and>
      pending d' = pending d @ news \<and>
      length news = length pm \<and>
      mset (map (\<lambda>p. (p_user_id_of_reviewer p, p_name_of_reviewer p)) news) = mset pm \<and>
      map (\<lambda>p. (p_user_id_of_reviewer p, p_name_of_reviewer p)) news = object_entries pm \<and>
      (\<forall>p\<in>set news. p_event_id p = e_event_id ev \<and> \<not> p_reviewed p \<and> \<not> p_approved p \<and>
         p_name_of_nominee p = name req \<and> p_user_id_of_nominee p = u_user_id u) \<and>
      (distinct (map fst pm) \<longrightarrow> distinct (map p_user_id_of_reviewer news)) \<and>
      ((\<forall>p\<in>set (pending d). p_event_id p \<in> set (map e_event_id (events d))) \<longrightarrow>
         filter (\<lambda>p. p_event_id p = e_event_id ev) (pending d') = news)"
proof -
  obtain u :: user_row where
    u: "filter (\<lambda>u. u_name u = name req) (users d) = [u]" and
    ce: "create_event req (u_user_id u) fl d = (Created, d')"
    using add_event_Created [OF assms] by blast
  define eid where "eid = fresh_id (map e_event_id (events d))"
  define ev where "ev = \<lparr>e_event_id = eid, e_name = name req,
            e_user_id = u_user_id u, e_aura_points = parseInt (auraPoints req),
            e_description = description req, e_group_name = groupName req,
            e_is_approved = False\<rparr>"
  define d1 where "d1 = d\<lparr>events := events d @ [ev]\<rparr>"
  have fo: "fan_out req (u_user_id u) eid fl d1 = (Created, d')"
    using create_event_Created [OF ce] by (simp add: eid_def ev_def d1_def)
  obtain g pm where
    g: "filter (\<lambda>g. Str (g_group_id g) = groupName req) (groups d1) = [g]" and
    pm: "g_people_map g = Some pm" and
    d': "d' = d1\<lparr>pending := pending d1 @
            map2 stored_pending
              [fresh_id (map p_pending_id (pending d1)) ..<
               fresh_id (map p_pending_id (pending d1)) +
                 length (pendingInserts req (u_user_id u) eid pm)]
              (pendingInserts req (u_user_id u) eid pm)\<rparr>"
    using fan_out_Created [OF fo] by blast
  define ids where "ids = [fresh_id (map p_pending_id (pending d1)) ..<
               fresh_id (map p_pending_id (pending d1)) +
                 length (pendingInserts req (u_user_id u) eid pm)]"
  define news where "news = map2 stored_pending ids (pendingInserts req (u_user_id u) eid pm)"
  have len_ids: "length ids = length (pendingInserts req (u_user_id u) eid pm)"
    by (simp add: ids_def)
  have len_ins: "length (pendingInserts req (u_user_id u) eid pm) = length pm"
    by (simp add: pendingInserts_def length_object_entries)
  have c1: "filter (\<lambda>g. Str (g_group_id g) = groupName req) (groups d) = [g]"
    using g by (simp add: d1_def)
  have c2: "events d' = events d @ [ev]"
    by (simp add: d' d1_def)
  have c3: "e_event_id ev \<notin> set (map e_event_id (events d))"
    using fresh_id_fresh [of "map e_event_id (events d)"] by (simp add: ev_def eid_def)
  have c4: "pending d' = pending d @ news"
    by (simp add: d' d1_def news_def ids_def)
  have c5: "length news = length pm"
    by (simp add: news_def len_ids len_ins)
  have c7: "map (\<lambda>p. (p_user_id_of_reviewer p, p_name_of_reviewer p)) news = object_entries pm"
    unfolding news_def by (rule reviewers_of_stored [OF len_ids])
  have c6: "mset (map (\<lambda>p. (p_user_id_of_reviewer p, p_name_of_reviewer p)) news) = mset pm"
    by (simp only: c7 mset_object_entries)
  have c8: "\<forall>p\<in>set news. p_event_id p = e_event_id ev \<and> \<not> p_reviewed p \<and> \<not> p_approved p \<and>
         p_name_of_nominee p = name req \<and> p_user_id_of_nominee p = u_user_id u"
    using flags_of_stored [of _ ids req "u_user_id u" eid pm]
    by (auto simp: news_def ev_def)
  have c9: "distinct (map p_user_id_of_reviewer news)" if "distinct (map fst pm)"
  proof -
    have "map p_user_id_of_reviewer news = map fst (object_entries pm)"
      using arg_cong [OF c7, of "map fst"] by (simp add: comp_def)
    moreover have "mset (map fst (object_entries pm)) = mset (map fst pm)"
      by (simp add: mset_object_entries)
    ultimately show ?thesis
      using that by (metis mset_eq_imp_distinct_iff)
  qed
  have c10: "filter (\<lambda>p. p_event_id p = e_event_id ev) (pending d') = news"
    if "\<forall>p\<in>set (pending d). p_event_id p \<in> set (map e_event_id (events d))"
  proof -
    have "p_event_id p \<noteq> e_event_id ev" if "p \<in> set (pending d)" for p
    proof
      assume "p_event_id p = e_event_id ev"
      moreover have "p_event_id p \<in> set (map e_event_id (events d))"
        using \<open>\<forall>p\<in>set (pending d). p_event_id p \<in> set (map e_event_id (events d))\<close> that
        by blast
      ultimately show False using c3 by simp
    qed
    then have "filter (\<lambda>p. p_event_id p = e_event_id ev) (pending d) = []"
      by (simp add: filter_empty_conv)
    moreover have "filter (\<lambda>p. p_event_id p = e_event_id ev) news = news"
      using c8 by (simp add: filter_id_conv)
    ultimately show ?thesis by (simp add: c4)
  qed
  show ?thesis
    using u c1 pm c2 c3 c4 c5 c6 c7 c8 c9 c10 by blast
qed

theorem one_ballot_per_roster_entry_witness:
  "fst (add_event (nominate ''Alice'' ''7'' (Str ''A'')) no_faults demo_db) = Created \<and>
   (\<exists>news.
      pending (snd (add_event (nominate ''Alice'' ''7'' (Str ''A'')) no_faults demo_db)) =
        pending demo_db @ news \<and>
      length news = 4 \<and>
      map (\<lambda>p. (p_user_id_of_reviewer p, p_name_of_reviewer p)) news = roster_A \<and>
      (\<forall>p\<in>set news. p_event_id p = 3 \<and> \<not> p_reviewed p \<and> \<not> p_approved p) \<and>
      distinct (map p_user_id_of_reviewer news) \<and>
      filter (\<lambda>p. p_event_id p = 3)
        (pending (snd (add_event (nominate ''Alice'' ''7'' (Str ''A'')) no_faults demo_db))) = news)"
proof -
  let ?req = "nominate ''Alice'' ''7'' (Str ''A'')"
  let ?r = "add_event ?req no_faults demo_db"
  have c: "fst ?r = Created"
    by (simp add: demo_defs add_defs)
  then have r: "?r = (Created, snd ?r)"
    by (metis prod.collapse)
  have e3: "events (snd ?r) = events demo_db @ [nomination 3 ''Alice'' (Some 7) ''A'' False]"
    by (simp add: demo_defs add_defs)
  have gA: "filter (\<lambda>g. Str (g_group_id g) = groupName ?req) (groups demo_db) = [group_A]"
    by (simp add: demo_defs nominate_def)
  have ri: "\<forall>p\<in>set (pending demo_db). p_event_id p \<in> set (map e_event_id (events demo_db))"
    by (simp add: demo_defs)
  have dk: "distinct (map fst roster_A)" "object_entries roster_A = roster_A" "length roster_A = 4"
    by (simp_all add: demo_defs object_entries_def is_array_index_def is_digit_def)
  obtain g pm ev news where
    g: "filter (\<lambda>g. Str (g_group_id g) = groupName ?req) (groups demo_db) = [g]" and
    pm: "g_people_map g = Some pm" and
    ev: "events (snd ?r) = events demo_db @ [ev]" and
    pn: "pending (snd ?r) = pending demo_db @ news" and
    ln: "length news = length pm" and
    mp: "map (\<lambda>p. (p_user_id_of_reviewer p, p_name_of_reviewer p)) news = object_entries pm" and
    di: "distinct (map fst pm) \<longrightarrow> distinct (map p_user_id_of_reviewer news)" and
    fi: "(\<forall>p\<in>set (pending demo_db). p_event_id p \<in> set (map e_event_id (events demo_db))) \<longrightarrow>
         filter (\<lambda>p. p_event_id p = e_event_id ev) (pending (snd ?r)) = news" and
    fl': "\<forall>p\<in>set news. p_event_id p = e_event_id ev \<and> \<not> p_reviewed p \<and> \<not> p_approved p"
    using one_ballot_per_roster_entry [OF r] by blast
  have "pm = roster_A"
    using g pm gA by (auto simp: group_A_def)
  moreover have "e_event_id ev = 3"
    using ev e3 by (auto simp: nomination_def)
  ultimately show ?thesis
    using c pn ln mp fl' di fi ri dk by auto
qed

section \<open>The leaderboard\<close>

















section \<open>Pending reviews of a reviewer\<close>

lemma find_filter: "find Q (filter R xs) = find (\<lambda>x. R x \<and> Q x) xs"
  by (induction xs) auto

lemma map_filter_cong_set:
  "(\<And>x. x \<in> set xs \<Longrightarrow> f x = g x) \<Longrightarrow> List.map_filter f xs = List.map_filter g xs"
  by (simp add: List.map_filter_def cong: map_cong filter_cong)

lemma joined_event:
  assumes "p \<in> set pd"
  shows "find (\<lambda>e. e_event_id e = p_event_id p)
           (filter (\<lambda>e. e_event_id e \<in> set (map p_event_id pd) \<and> e_group_name e = gid) es) =
         find (\<lambda>e. e_event_id e = p_event_id p \<and> e_group_name e = gid) es"
  unfolding find_filter
  by (rule find_cong) (use assms in auto)

lemma map_fst_join:
  "map fst (List.map_filter (\<lambda>p. map_option (Pair p) (f p)) xs) = filter (\<lambda>p. f p \<noteq> None) xs"
  by (induction xs) (auto split: option.splits)

lemma set_join:
  "(p, e) \<in> set (List.map_filter (\<lambda>p. map_option (Pair p) (f p)) xs) \<longleftrightarrow>
     p \<in> set xs \<and> f p = Some e"
  by (induction xs) (auto split: option.splits)

text \<open>
  C9. With both parameters present and the store calls going through, the reply
  is 200 with the unreviewed ballots of the reviewer, in the order of the table,
  each paired with the first event of the events table that has the ballot's
  \<^verbatim>\<open>event_id\<close> and belongs to the supplied group; a ballot with no such event is
  left out, and nothing else is. With no unreviewed ballot the reply is the empty
  list (and the events are not read). The store is unchanged.
\<close>

theorem pending_reviews_join:
  assumes "\<not> falsy group_id" "\<not> falsy user_id" "fl 0 = None"
    and "fl 1 = None \<or>
         filter (\<lambda>p. Str (p_user_id_of_reviewer p) = user_id \<and> \<not> p_reviewed p) (pending d) = []"
  shows "\<exists>rows.
     pending_reviews group_id user_id fl d = (Combined rows, d) \<and>
     rows = List.map_filter
              (\<lambda>p. map_option (Pair p)
                     (find (\<lambda>e. e_event_id e = p_event_id p \<and> e_group_name e = group_id)
                        (events d)))
              (filter (\<lambda>p. Str (p_user_id_of_reviewer p) = user_id \<and> \<not> p_reviewed p)
                 (pending d)) \<and>
     map fst rows =
       filter (\<lambda>p. Str (p_user_id_of_reviewer p) = user_id \<and> \<not> p_reviewed p \<and>
                   (\<exists>e\<in>set (events d). e_event_id e = p_event_id p \<and> e_group_name e = group_id))
         (pending d) \<and>
     (\<forall>(p, e)\<in>set rows.
        e \<in> set (events d) \<and> e_event_id e = p_event_id p \<and> e_group_name e = group_id) \<and>
     (filter (\<lambda>p. Str (p_user_id_of_reviewer p) = user_id \<and> \<not> p_reviewed p) (pending d) = []
        \<longrightarrow> rows = [])"
proof -
  define pd where
    "pd = filter (\<lambda>p. Str (p_user_id_of_reviewer p) = user_id \<and> \<not> p_reviewed p) (pending d)"
  define ev where
    "ev = (\<lambda>p :: pending_row. find (\<lambda>e. e_event_id e = p_event_id p \<and> e_group_name e = group_id) (events d))"
  define rows where "rows = List.map_filter (\<lambda>p. map_option (Pair p) (ev p)) pd"
  have run: "pending_reviews group_id user_id fl d = (Combined rows, d)"
  proof (cases "pd = []")
    case True
    then show ?thesis
      using assms(1-3)
      by (simp add: pending_reviews_def select_def pd_def [symmetric] rows_def)
  next
    case False
    then have f1: "fl 1 = None" using assms(4) by (simp add: pd_def)
    have "List.map_filter
            (\<lambda>p. case find (\<lambda>e. e_event_id e = p_event_id p)
                         (filter (\<lambda>e. e_event_id e \<in> set (map p_event_id pd) \<and>
                                       e_group_name e = group_id) (events d)) of
                    None \<Rightarrow> None | Some event \<Rightarrow> Some (p, event)) pd = rows"
      unfolding rows_def
      by (rule map_filter_cong_set) (simp only: joined_event, simp add: ev_def split: option.splits)
    then show ?thesis
      using assms(1-3) f1 False
      by (simp add: pending_reviews_def select_def pd_def [symmetric] Let_def)
  qed
  have fst: "map fst rows = filter (\<lambda>p. Str (p_user_id_of_reviewer p) = user_id \<and> \<not> p_reviewed p \<and>
                   (\<exists>e\<in>set (events d). e_event_id e = p_event_id p \<and> e_group_name e = group_id))
         (pending d)"
    by (auto simp: rows_def map_fst_join pd_def ev_def find_None_iff intro!: filter_cong)
  have each: "\<forall>(p, e)\<in>set rows.
        e \<in> set (events d) \<and> e_event_id e = p_event_id p \<and> e_group_name e = group_id"
    by (auto simp: rows_def set_join ev_def find_Some_iff)
  have none: "pd = [] \<longrightarrow> rows = []"
    by (simp add: rows_def)
  show ?thesis
    using run fst each none unfolding rows_def pd_def ev_def by blast
qed

theorem pending_reviews_join_witness:
  "pending_reviews (Str ''A'') (Str ''r1'') no_faults join_db =
     (Combined [(ballot 1 1 False False ''r1'', nomination 1 ''Alice'' (Some 10) ''A'' False)],
      join_db) \<and>
   pending_reviews (Str ''A'') (Str ''r9'') (\<lambda>i. if i = 1 then Some ''offline'' else None) join_db =
     (Combined [], join_db)"
proof -
  have h: "\<not> falsy (Str ''A'')" "\<not> falsy (Str ''r1'')" "\<not> falsy (Str ''r9'')"
    "no_faults 0 = None" "no_faults 1 = None"
    by (simp_all add: no_faults_def)
  obtain rows where
    run: "pending_reviews (Str ''A'') (Str ''r1'') no_faults join_db = (Combined rows, join_db)" and
    rows: "rows = List.map_filter
              (\<lambda>p. map_option (Pair p)
                     (find (\<lambda>e. e_event_id e = p_event_id p \<and> e_group_name e = Str ''A'')
                        (events join_db)))
              (filter (\<lambda>p. Str (p_user_id_of_reviewer p) = Str ''r1'' \<and> \<not> p_reviewed p)
                 (pending join_db))"
    using pending_reviews_join [of "Str ''A''" "Str ''r1''" no_faults join_db] h by blast
  have r1: "rows = [(ballot 1 1 False False ''r1'', nomination 1 ''Alice'' (Some 10) ''A'' False)]"
    unfolding rows by (simp add: join_db_def demo_defs)
  let ?fl = "\<lambda>i::nat. if i = 1 then Some ''offline'' else None"
  have e: "filter (\<lambda>p. Str (p_user_id_of_reviewer p) = Str ''r9'' \<and> \<not> p_reviewed p)
             (pending join_db) = []"
    by (simp add: join_db_def demo_defs)
  obtain rows' where
    run': "pending_reviews (Str ''A'') (Str ''r9'') ?fl join_db = (Combined rows', join_db)" and
    none: "filter (\<lambda>p. Str (p_user_id_of_reviewer p) = Str ''r9'' \<and> \<not> p_reviewed p)
             (pending join_db) = [] \<longrightarrow> rows' = []"
    using pending_reviews_join [of "Str ''A''" "Str ''r9''" ?fl join_db] h e by auto
  show ?thesis
    using run r1 run' none e by simp
qed

section \<open>The quorum evaluation\<close>



lemma evaluate_quorum_frame:
  "users (snd (evaluate_quorum eid gid fl d)) = users d"
  "groups (snd (evaluate_quorum eid gid fl d)) = groups d"
  "pending (snd (evaluate_quorum eid gid fl d)) = pending d"
  by (simp_all add: evaluate_quorum_def single_def select_def approve_event_def Let_def
      split: option.splits list.splits sum.splits)

lemma evaluate_quorum_events:
  "events (snd (evaluate_quorum eid gid fl d)) = events d \<or>
   events (snd (evaluate_quorum eid gid fl d)) = mark_approved eid (events d)"
  by (simp add: evaluate_quorum_def single_def select_def approve_event_def Let_def
      split: option.splits list.splits sum.splits)

lemma review_event_valid:
  assumes "pendingId req = Some pid" "pid \<noteq> 0" "eventId req = Some eid" "eid \<noteq> 0"
    and "isApproved req = Some a" "\<not> falsy (groupId req)"
  shows "review_event req fl d =
     (case update_pending (fl 0) pid a d of
        Inl e \<Rightarrow> (Error 500 (StoreMsg e), d)
      | Inr d1 \<Rightarrow> evaluate_quorum eid (groupId req) fl d1)"
  using assms by (simp add: review_event_def)

lemma review_event_frame:
  "users (snd (review_event req fl d)) = users d"
  "groups (snd (review_event req fl d)) = groups d"
  by (simp_all add: review_event_def update_pending_def evaluate_quorum_frame
      split: option.splits sum.splits)

lemma evaluate_quorum_Processed:
  assumes "evaluate_quorum eid gid fl d = (Processed pct wa, d')"
  shows "\<exists>g pm. fl 1 = None \<and> fl 2 = None \<and>
     filter (\<lambda>g. Str (g_group_id g) = gid) (groups d) = [g] \<and> g_people_map g = Some pm \<and>
     pct = js_times (js_div (length (filter (\<lambda>p. p_event_id p = eid \<and> p_approved p) (pending d)))
             (length pm)) 100 \<and>
     wa = js_ge pct 50 \<and>
     d' = (if js_ge pct 50 then d\<lparr>events := mark_approved eid (events d)\<rparr> else d)"
  using assms
  by (auto simp: evaluate_quorum_def single_Inr_iff select_def approve_event_def Let_def
      length_object_keys split: option.splits sum.splits if_splits)

text \<open>
  Every reply that carries a percentage arises from a valid request, one group with
  a roster, and the count taken after the decision was stored.
\<close>

lemma review_event_Processed:
  assumes "review_event req fl d = (Processed pct wa, d')"
  shows "\<exists>pid eid a g pm.
     pendingId req = Some pid \<and> eventId req = Some eid \<and> isApproved req = Some a \<and>
     filter (\<lambda>g. Str (g_group_id g) = groupId req) (groups d) = [g] \<and> g_people_map g = Some pm \<and>
     pct = js_times (js_div
             (length (filter (\<lambda>p. p_event_id p = eid \<and> p_approved p)
                        (record_decision pid a (pending d))))
             (length pm)) 100 \<and>
     wa = js_ge pct 50 \<and>
     pending d' = record_decision pid a (pending d) \<and>
     events d' = (if js_ge pct 50 then mark_approved eid (events d) else events d)"
proof -
  obtain pid eid a where
    v: "pendingId req = Some pid" "eventId req = Some eid" "isApproved req = Some a" and
    e: "evaluate_quorum eid (groupId req) fl (d\<lparr>pending := record_decision pid a (pending d)\<rparr>) =
          (Processed pct wa, d')"
    using assms
    by (auto simp: review_event_def update_pending_def split: option.splits sum.splits if_splits)
  from evaluate_quorum_Processed [OF e] v show ?thesis
    by auto
qed

lemma mark_approved_idem: "mark_approved eid (mark_approved eid es) = mark_approved eid es"
  by (simp add: mark_approved_def)


lemmas review_defs = review_event_def evaluate_quorum_def update_pending_def record_decision_def
  approve_event_def mark_approved_def single_def select_def object_keys_def object_entries_def
  is_array_index_def is_digit_def digits_value_def js_div_def



section \<open>Status of events and decisions on ballots\<close>

lemma approved_row_fixed: "e_is_approved e \<Longrightarrow> e\<lparr>e_is_approved := True\<rparr> = e"
  by (cases e) simp

lemma mark_approved_step:
  "list_all2 (\<lambda>e e'. e' = e \<or> e' = e\<lparr>e_is_approved := True\<rparr>) es (mark_approved eid es)"
  by (simp add: mark_approved_def list_all2_conv_all_nth)

lemma same_step:
  "list_all2 (\<lambda>e e'. e' = e \<or> e' = e\<lparr>e_is_approved := True\<rparr>) es es"
  by (simp add: list_all2_conv_all_nth)

lemma review_event_cases:
  "snd (review_event req fl d) = d \<or>
   (\<exists>pid eid a. pendingId req = Some pid \<and> eventId req = Some eid \<and> isApproved req = Some a \<and>
      pid \<noteq> 0 \<and> eid \<noteq> 0 \<and> \<not> falsy (groupId req) \<and> fl 0 = None \<and>
      review_event req fl d =
        evaluate_quorum eid (groupId req) fl (d\<lparr>pending := record_decision pid a (pending d)\<rparr>))"
  by (auto simp: review_event_def update_pending_def split: option.splits sum.splits)

lemma review_event_events:
  "list_all2 (\<lambda>e e'. e' = e \<or> e' = e\<lparr>e_is_approved := True\<rparr>)
     (events d) (events (snd (review_event req fl d)))"
proof -
  consider "snd (review_event req fl d) = d"
    | pid eid a where "review_event req fl d =
        evaluate_quorum eid (groupId req) fl (d\<lparr>pending := record_decision pid a (pending d)\<rparr>)"
    using review_event_cases [of req fl d] by blast
  then show ?thesis
  proof cases
    case 1
    then show ?thesis by (simp add: same_step)
  next
    case 2
    let ?d1 = "d\<lparr>pending := record_decision pid a (pending d)\<rparr>"
    have "events (snd (evaluate_quorum eid (groupId req) fl ?d1)) = events d \<or>
          events (snd (evaluate_quorum eid (groupId req) fl ?d1)) = mark_approved eid (events d)"
      using evaluate_quorum_events [of eid "groupId req" fl ?d1] by simp
    then show ?thesis
      using mark_approved_step [of "events d" eid] same_step [of "events d"] by (auto simp: 2)
  qed
qed

lemma review_events_events:
  "list_all2 (\<lambda>e e'. e' = e \<or> e' = e\<lparr>e_is_approved := True\<rparr>)
     (events d) (events (review_events rs d))"
proof (induction rs arbitrary: d)
  case Nil
  show ?case by (simp add: same_step)
next
  case (Cons r rs)
  obtain req fl where r: "r = (req, fl)" by (cases r)
  have a: "list_all2 (\<lambda>e e'. e' = e \<or> e' = e\<lparr>e_is_approved := True\<rparr>)
     (events d) (events (snd (review_event req fl d)))"
    by (rule review_event_events)
  have b: "list_all2 (\<lambda>e e'. e' = e \<or> e' = e\<lparr>e_is_approved := True\<rparr>)
     (events (snd (review_event req fl d))) (events (review_events rs (snd (review_event req fl d))))"
    by (rule Cons.IH)
  have "list_all2 (\<lambda>e e'. e' = e \<or> e' = e\<lparr>e_is_approved := True\<rparr>)
     (events d) (events (review_events rs (snd (review_event req fl d))))"
    using a b by (rule list_all2_trans [rotated]) auto
  then show ?case by (simp add: r)
qed

lemma evaluate_quorum_again:
  assumes "evaluate_quorum eid gid fl d = (Processed pct wa, d')"
  shows "evaluate_quorum eid gid fl d' = (Processed pct wa, d')"
  using assms
  by (auto simp: evaluate_quorum_def single_def select_def approve_event_def Let_def
      mark_approved_idem split: option.splits list.splits sum.splits if_splits)

text \<open>
  C2. Whatever sequence of review requests is run, with whatever faults, every row
  of the events table is afterwards the row it was or that row with
  \<^verbatim>\<open>is_approved = true\<close>: the only write to the status sets it to approved, and a
  row that was approved is unchanged. An evaluation that succeeded, run again on the
  store it produced, gives the same reply and leaves that store as it is.
\<close>

theorem approval_is_monotonic:
  "list_all2 (\<lambda>e e'. e' = e \<or> e' = e\<lparr>e_is_approved := True\<rparr>)
     (events d) (events (review_events rs d)) \<and>
   (\<forall>i < length (events d).
      e_is_approved (events d ! i) \<longrightarrow> events (review_events rs d) ! i = events d ! i) \<and>
   (evaluate_quorum eid gid fl d = (Processed pct wa, d') \<longrightarrow>
      evaluate_quorum eid gid fl d' = (Processed pct wa, d'))"
proof -
  have rel: "list_all2 (\<lambda>e e'. e' = e \<or> e' = e\<lparr>e_is_approved := True\<rparr>)
     (events d) (events (review_events rs d))"
    by (rule review_events_events)
  have "events (review_events rs d) ! i = events d ! i"
    if "i < length (events d)" "e_is_approved (events d ! i)" for i
    using list_all2_nthD [OF rel that(1)] that(2) by (auto simp: approved_row_fixed)
  with rel evaluate_quorum_again show ?thesis by blast
qed

lemma cross_db_eq:
  "cross_db = demo_db\<lparr>
      events := [nomination 1 ''Alice'' (Some 10) ''A'' False, nomination 2 ''Alice'' (Some 5) ''A'' True],
      pending := [ballot 1 1 False True ''r1'', ballot 2 2 True True ''r1'']\<rparr>"
  by (simp add: cross_db_def demo_defs review_defs)

theorem approval_is_monotonic_witness:
  "(1::nat) < length (events cross_db) \<and> e_is_approved (events cross_db ! 1) \<and>
   events (review_events [(decide 2 2 False ''A'', no_faults)] cross_db) ! 1 = events cross_db ! 1 \<and>
   evaluate_quorum 2 (Str ''B'') no_faults demo_db = (Processed (Num 50) True, cross_db\<lparr>pending := pending demo_db\<rparr>) \<and>
   evaluate_quorum 2 (Str ''B'') no_faults (cross_db\<lparr>pending := pending demo_db\<rparr>) =
     (Processed (Num 50) True, cross_db\<lparr>pending := pending demo_db\<rparr>)"
proof -
  have l: "(1::nat) < length (events cross_db)" and a: "e_is_approved (events cross_db ! 1)"
    by (simp_all add: cross_db_eq nomination_def)
  have e: "evaluate_quorum 2 (Str ''B'') no_faults demo_db =
      (Processed (Num 50) True, cross_db\<lparr>pending := pending demo_db\<rparr>)"
    by (simp add: cross_db_eq demo_defs review_defs)
  show ?thesis
    using approval_is_monotonic [of cross_db "[(decide 2 2 False ''A'', no_faults)]"
        2 "Str ''B''" no_faults "Num 50" True "cross_db\<lparr>pending := pending demo_db\<rparr>"]
      approval_is_monotonic [of demo_db "[]"
        2 "Str ''B''" no_faults "Num 50" True "cross_db\<lparr>pending := pending demo_db\<rparr>"]
      l a e
    by blast
qed

text \<open>
  C5, as amended. A valid review request whose ballot id matches no row of the
  pending table is not rejected: the update goes through without changing any
  ballot, and the reply is the reply of the quorum evaluation of the supplied event
  and group.
\<close>

theorem unknown_ballot_not_rejected:
  assumes "pendingId req = Some pid" "pid \<noteq> 0" "eventId req = Some eid" "eid \<noteq> 0"
    and "isApproved req = Some a" "\<not> falsy (groupId req)"
    and "fl 0 = None"
    and "pid \<notin> set (map p_pending_id (pending d))"
  shows "review_event req fl d = evaluate_quorum eid (groupId req) fl d \<and>
         pending (snd (review_event req fl d)) = pending d"
proof -
  have "record_decision pid a (pending d) = pending d"
    using assms(8) by (auto simp: record_decision_def intro!: map_idI)
  then have "update_pending (fl 0) pid a d = Inr d"
    using assms(7) by (simp add: update_pending_def)
  then have "review_event req fl d = evaluate_quorum eid (groupId req) fl d"
    using review_event_valid [OF assms(1-6), of fl d] by simp
  then show ?thesis
    by (simp add: evaluate_quorum_frame)
qed

theorem unknown_ballot_not_rejected_witness:
  "99 \<notin> set (map p_pending_id (pending demo_db)) \<and>
   review_event (decide 99 1 True ''A'') no_faults demo_db =
     evaluate_quorum 1 (Str ''A'') no_faults demo_db \<and>
   pending (snd (review_event (decide 99 1 True ''A'') no_faults demo_db)) = pending demo_db"
proof -
  let ?req = "decide 99 1 True ''A''"
  have v: "pendingId ?req = Some 99" "(99::nat) \<noteq> 0" "eventId ?req = Some 1" "(1::nat) \<noteq> 0"
    "isApproved ?req = Some True" "\<not> falsy (groupId ?req)"
    by (simp_all add: decide_def)
  have f: "no_faults 0 = None" by (simp add: no_faults_def)
  have u: "99 \<notin> set (map p_pending_id (pending demo_db))"
    by (simp add: demo_defs)
  show ?thesis
    using unknown_ballot_not_rejected [of ?req 99 1 True no_faults demo_db] v f u
    by (simp add: decide_def evaluate_quorum_frame)
qed

text \<open>
  C5 as stated fails: no ballot has id 99, and the request is answered with
  \<^verbatim>\<open>200 {approvalPercentage: 0, wasApproved: false}\<close>.
\<close>

theorem unknown_ballot_counterexample:
  "99 \<notin> set (map p_pending_id (pending demo_db)) \<and>
   review_event (decide 99 1 True ''A'') no_faults demo_db = (Processed (Num 0) False, demo_db)"
  by (simp add: demo_defs review_defs)

text \<open>
  C6, as amended. A valid review request whose first store call goes through
  rewrites every ballot with the submitted id, whether it was reviewed before or
  not: its \<^verbatim>\<open>approved\<close> flag becomes the submitted decision and \<^verbatim>\<open>reviewed\<close>
  becomes true; the other ballots keep their flags.
\<close>

theorem decision_is_overwritten:
  assumes "pendingId req = Some pid" "pid \<noteq> 0" "eventId req = Some eid" "eid \<noteq> 0"
    and "isApproved req = Some a" "\<not> falsy (groupId req)"
    and "fl 0 = None"
  shows "pending (snd (review_event req fl d)) = record_decision pid a (pending d) \<and>
         map p_approved (pending (snd (review_event req fl d))) =
           map (\<lambda>p. if p_pending_id p = pid then a else p_approved p) (pending d) \<and>
         map p_reviewed (pending (snd (review_event req fl d))) =
           map (\<lambda>p. p_pending_id p = pid \<or> p_reviewed p) (pending d)"
proof -
  have "review_event req fl d =
      evaluate_quorum eid (groupId req) fl (d\<lparr>pending := record_decision pid a (pending d)\<rparr>)"
    using review_event_valid [OF assms(1-6), of fl d] assms(7) by (simp add: update_pending_def)
  then have "pending (snd (review_event req fl d)) = record_decision pid a (pending d)"
    by (simp add: evaluate_quorum_frame)
  then show ?thesis
    by (simp add: record_decision_def)
qed

theorem decision_is_overwritten_witness:
  "pending (snd (review_event (decide 2 2 False ''A'') no_faults demo_db)) =
     record_decision 2 False (pending demo_db) \<and>
   map p_approved (pending demo_db) = [False, True] \<and>
   map p_reviewed (pending demo_db) = [False, True] \<and>
   map p_approved (pending (snd (review_event (decide 2 2 False ''A'') no_faults demo_db))) =
     [False, False] \<and>
   map p_reviewed (pending (snd (review_event (decide 2 2 False ''A'') no_faults demo_db))) =
     [False, True]"
proof -
  let ?req = "decide 2 2 False ''A''"
  have v: "pendingId ?req = Some 2" "(2::nat) \<noteq> 0" "eventId ?req = Some 2" "(2::nat) \<noteq> 0"
    "isApproved ?req = Some False" "\<not> falsy (groupId ?req)"
    by (simp_all add: decide_def)
  have f: "no_faults 0 = None" by (simp add: no_faults_def)
  have p: "map p_approved (pending demo_db) = [False, True]"
    "map p_reviewed (pending demo_db) = [False, True]"
    by (simp_all add: demo_defs)
  have t: "pending (snd (review_event ?req no_faults demo_db)) =
      record_decision 2 False (pending demo_db)"
    using decision_is_overwritten [of ?req 2 2 False no_faults demo_db] v f by blast
  have rd: "record_decision 2 False (pending demo_db) =
      [ballot 1 1 False False ''r1'', ballot 2 2 False True ''r1'']"
    by (simp add: demo_defs record_decision_def)
  show ?thesis
    unfolding t rd using p by (simp add: ballot_def)
qed

text \<open>
  C6 as stated fails: ballot 1 is approved by a first request and a second request
  on the same ballot stores \<^verbatim>\<open>approved = false\<close> and is answered with 200.
\<close>

theorem decision_final_counterexample:
  "pending (review_events [(decide 1 1 True ''A'', no_faults)] demo_db) =
     [ballot 1 1 True True ''r1'', ballot 2 2 True True ''r1''] \<and>
   review_event (decide 1 1 False ''A'') no_faults
       (review_events [(decide 1 1 True ''A'', no_faults)] demo_db) =
     (Processed (Num 0) False,
      demo_db\<lparr>pending := [ballot 1 1 False True ''r1'', ballot 2 2 True True ''r1'']\<rparr>)"
  by (simp add: demo_defs review_defs)

text \<open>
  C10. For every valid review request the ballot write depends on the ballot id and
  the decision only, and the evaluation that follows uses the supplied event id and
  group id: the handler never compares the ballot's \<^verbatim>\<open>event_id\<close> with the supplied
  event id or its group with the supplied group id. In the example store ballot 1
  belongs to event 1; a decision on it sent with event id 2 and group B marks
  event 2 approved.
\<close>

theorem ballot_write_ignores_event_and_group:
  "(pid \<noteq> 0 \<and> eid \<noteq> 0 \<and> \<not> falsy gid \<and> fl 0 = None \<longrightarrow>
      review_event \<lparr>pendingId = Some pid, eventId = Some eid, isApproved = Some a, groupId = gid\<rparr> fl d =
        evaluate_quorum eid gid fl (d\<lparr>pending := record_decision pid a (pending d)\<rparr>)) \<and>
   map p_event_id (filter (\<lambda>p. p_pending_id p = 1) (pending demo_db)) = [1] \<and>
   map e_is_approved (filter (\<lambda>e. e_event_id e = 2) (events demo_db)) = [False] \<and>
   review_event (decide 1 2 False ''B'') no_faults demo_db =
     (Processed (Num 50) True,
      demo_db\<lparr>events := [nomination 1 ''Alice'' (Some 10) ''A'' False,
                           nomination 2 ''Alice'' (Some 5) ''A'' True],
               pending := [ballot 1 1 False True ''r1'', ballot 2 2 True True ''r1'']\<rparr>)"
proof -
  have "review_event \<lparr>pendingId = Some pid, eventId = Some eid, isApproved = Some a, groupId = gid\<rparr> fl d =
        evaluate_quorum eid gid fl (d\<lparr>pending := record_decision pid a (pending d)\<rparr>)"
    if "pid \<noteq> 0" "eid \<noteq> 0" "\<not> falsy gid" "fl 0 = None"
    using that by (simp add: review_event_def update_pending_def)
  moreover have "map p_event_id (filter (\<lambda>p. p_pending_id p = 1) (pending demo_db)) = [1]"
    by (simp add: demo_defs)
  moreover have "map e_is_approved (filter (\<lambda>e. e_event_id e = 2) (events demo_db)) = [False]"
    by (simp add: demo_defs)
  moreover have "review_event (decide 1 2 False ''B'') no_faults demo_db =
     (Processed (Num 50) True,
      demo_db\<lparr>events := [nomination 1 ''Alice'' (Some 10) ''A'' False,
                           nomination 2 ''Alice'' (Some 5) ''A'' True],
               pending := [ballot 1 1 False True ''r1'', ballot 2 2 True True ''r1'']\<rparr>)"
    by (simp add: demo_defs review_defs)
  ultimately show ?thesis by blast
qed

theorem ballot_write_ignores_event_and_group_witness:
  "(1::nat) \<noteq> 0 \<and> (2::nat) \<noteq> 0 \<and> \<not> falsy (Str ''B'') \<and> no_faults 0 = None \<and>
   review_event \<lparr>pendingId = Some 1, eventId = Some 2, isApproved = Some False, groupId = Str ''B''\<rparr>
       no_faults demo_db =
     evaluate_quorum 2 (Str ''B'') no_faults
       (demo_db\<lparr>pending := record_decision 1 False (pending demo_db)\<rparr>)"
proof -
  have h: "(1::nat) \<noteq> 0 \<and> (2::nat) \<noteq> 0 \<and> \<not> falsy (Str ''B'') \<and> no_faults 0 = None"
    by (simp add: no_faults_def)
  then show ?thesis
    using ballot_write_ignores_event_and_group [of 1 2 "Str ''B''" no_faults False demo_db]
    by blast
qed

end
